theory Spec2Isabelle
  imports Main
begin

section \<open>The watch-queue-worker controller of utils/watch.go\<close>

text \<open>
  The embedding follows \<^verbatim>\<open>src/utils/watch.go\<close>. A Go \<^verbatim>\<open>error\<close> value is
  identified with its message; \<^verbatim>\<open>err == nil\<close> is \<open>None\<close>.
\<close>

type_synonym error = string

definition nl :: string where
  "nl = [CHR 0x0A]"

subsection \<open>Data\<close>

text \<open>The fields of \<^verbatim>\<open>v1.Event\<close> the program reads.\<close>

record v1_EventSource =
  Component :: string
  Host :: string

record v1_Event =
  Name :: string
  Namespace :: string
  Kind :: string
  Message :: string
  Reason :: string
  Source :: v1_EventSource

text \<open>
  What the informer hands to a handler as \<^verbatim>\<open>interface{}\<close>: a \<^verbatim>\<open>*v1.Event\<close>, or,
  on a delete whose final state was missed, the tombstone
  \<^verbatim>\<open>cache.DeletedFinalStateUnknown{Key, Obj}\<close>.
\<close>

datatype object =
  EventPtr v1_Event
| DeletedFinalStateUnknown string object

text \<open>A failed single-value type assertion \<^verbatim>\<open>obj.(*v1.Event)\<close> panics.\<close>

datatype panic = TypeAssertionPanic

definition UpdateEvent :: string where "UpdateEvent = ''UPDATE''"
definition DeleteEvent :: string where "DeleteEvent = ''DELETE''"

text \<open>\<^verbatim>\<open>type Event struct\<close>; \<open>Obj\<close> is a pointer, \<open>None\<close> is nil.\<close>

record Event =
  Type :: string
  Obj :: "v1_Event option"
  Key :: string

text \<open>Calls of \<^verbatim>\<open>fmt.Printf\<close> and of klog, kept as format and arguments.\<close>

datatype fmt_call = Printf string "string list"

datatype klog_call = Errorf string "string list" | Infof string "string list"

subsection \<open>The file sink\<close>

text \<open>
  \<^verbatim>\<open>*os.File\<close>: the bytes appended so far, and the error every write returns when
  the sink is unavailable. A failing write is modelled as appending nothing.
\<close>

record File =
  written :: string
  unavailable :: "error option"

definition WriteString :: "File \<Rightarrow> string \<Rightarrow> File \<times> error option" where
  "WriteString fl s =
     (case unavailable fl of
        None \<Rightarrow> (fl\<lparr>written := written fl @ s\<rparr>, None)
      | Some e \<Rightarrow> (fl, Some e))"

subsection \<open>The work queue\<close>

text \<open>
  Modelled from the spec: the package \<^verbatim>\<open>k8s.io/client-go/util/workqueue\<close> is not part
  of the sources. Section 4.3 of the specification gives its operations: a deduplicating
  FIFO of pending keys, the keys in processing, the keys added again while in processing
  (redelivered at \<open>Done\<close>), and a retry counter for each key. The backoff delay of
  \<open>AddRateLimited\<close> is not modelled: the key is added as soon as it is requeued.
\<close>

record workqueue =
  pending :: "string list"
  dirty :: "string set"
  processing :: "string set"
  retries :: "string \<Rightarrow> nat"
  shuttingDown :: bool

definition Add :: "workqueue \<Rightarrow> string \<Rightarrow> workqueue" where
  "Add q k =
     (if k \<in> dirty q then q
      else if k \<in> processing q then q\<lparr>dirty := insert k (dirty q)\<rparr>
      else q\<lparr>dirty := insert k (dirty q), pending := pending q @ [k]\<rparr>)"

text \<open>\<open>None\<close>: the call blocks. Otherwise the key and the shutdown flag.\<close>

definition Get :: "workqueue \<Rightarrow> ((string \<times> bool) \<times> workqueue) option" where
  "Get q =
     (case pending q of
        [] \<Rightarrow> if shuttingDown q then Some (([], True), q) else None
      | k # ks \<Rightarrow>
          Some ((k, False),
            q\<lparr>pending := ks, processing := insert k (processing q), dirty := dirty q - {k}\<rparr>))"

definition Done :: "workqueue \<Rightarrow> string \<Rightarrow> workqueue" where
  "Done q k =
     (let q1 = q\<lparr>processing := processing q - {k}\<rparr>
      in if k \<in> dirty q1 then q1\<lparr>pending := pending q1 @ [k]\<rparr> else q1)"

definition NumRequeues :: "workqueue \<Rightarrow> string \<Rightarrow> nat" where
  "NumRequeues q k = retries q k"

definition Forget :: "workqueue \<Rightarrow> string \<Rightarrow> workqueue" where
  "Forget q k = q\<lparr>retries := (retries q)(k := 0)\<rparr>"

definition AddRateLimited :: "workqueue \<Rightarrow> string \<Rightarrow> workqueue" where
  "AddRateLimited q k = Add (q\<lparr>retries := (retries q)(k := Suc (retries q k))\<rparr>) k"

subsection \<open>Key extraction\<close>

text \<open>
  Modelled from the spec: the package \<^verbatim>\<open>k8s.io/client-go/tools/cache\<close> is not part of
  the sources. The Identity Key is computed from namespace and name (\<^verbatim>\<open>ns/foo\<close>; the
  name alone when the namespace is empty); a tombstone has no metadata of its own, and
  the deletion-tolerant extractor falls back to the key the tombstone carries. A Go
  function returning \<^verbatim>\<open>(string, error)\<close> returns a pair.
\<close>

type_synonym KeyFunc = "object \<Rightarrow> string \<times> error option"

fun MetaNamespaceKeyFunc :: KeyFunc where
  "MetaNamespaceKeyFunc (EventPtr evt) =
     (if Namespace evt \<noteq> [] then (Namespace evt @ ''/'' @ Name evt, None)
      else (Name evt, None))"
| "MetaNamespaceKeyFunc (DeletedFinalStateUnknown k ob) =
     ([], Some ''object has no meta'')"

fun DeletionHandlingMetaNamespaceKeyFunc :: KeyFunc where
  "DeletionHandlingMetaNamespaceKeyFunc (DeletedFinalStateUnknown k ob) = (k, None)"
| "DeletionHandlingMetaNamespaceKeyFunc ob = MetaNamespaceKeyFunc ob"

subsection \<open>The state the goroutines of Watch share\<close>

text \<open>
  The fields of \<^verbatim>\<open>Controller\<close> (\<open>indexer\<close>, \<open>queue\<close>, \<open>f\<close>; the informer is only
  started by \<^verbatim>\<open>Run\<close>), the variables \<open>newEvent\<close> and \<open>err\<close> of \<^verbatim>\<open>Watch\<close> that the
  handler closures capture, and the process-wide sinks: standard output, klog, and the
  errors passed to \<^verbatim>\<open>runtime.HandleError\<close>. The indexer is read through
  \<^verbatim>\<open>GetByKey\<close> only: a lookup error, or the cached \<^verbatim>\<open>*v1.Event\<close> if one exists (the
  informer is built for \<^verbatim>\<open>&v1.Event{}\<close>, so the cache holds nothing else).
\<close>

record world =
  indexer :: "string \<Rightarrow> error + v1_Event option"
  queue :: workqueue
  f :: File
  newEvent :: Event
  err :: "error option"
  stdout :: "fmt_call list"
  klog :: "klog_call list"
  HandleError :: "error list"

subsection \<open>The worker\<close>

definition Sprintf_msg :: "v1_Event \<Rightarrow> string" where
  "Sprintf_msg evt =
     Name evt @ '': '' @ Namespace evt @ ''/'' @ Kind evt @ ''/'' @ Name evt @ ''/''
       @ Message evt @ '' '' @ nl"

definition syncToStdout :: "string \<Rightarrow> world \<Rightarrow> error option \<times> world" where
  "syncToStdout key w =
     (case indexer w key of
        Inl e \<Rightarrow>
          (Some e,
           w\<lparr>klog := klog w @
              [Errorf ''Fetching object with key %s from store failed with %v'' [key, e]]\<rparr>)
      | Inr None \<Rightarrow>
          (None,
           w\<lparr>stdout := stdout w @ [Printf (''Pod %s does not exist anymore'' @ nl) [key]]\<rparr>)
      | Inr (Some evt) \<Rightarrow>
          (let msg = Sprintf_msg evt;
               w1 = w\<lparr>stdout := stdout w @ [Printf msg []]\<rparr>;
               (fl, werr) = WriteString (f w1) msg;
               w2 = w1\<lparr>f := fl\<rparr>
           in case werr of
                None \<Rightarrow> (None, w2)
              | Some e \<Rightarrow>
                  (None, w2\<lparr>stdout := stdout w2 @ [Printf ''write file error %s'' [e]]\<rparr>)))"

definition handleErr :: "error option \<Rightarrow> string \<Rightarrow> world \<Rightarrow> world" where
  "handleErr er key w =
     (case er of
        None \<Rightarrow> w\<lparr>queue := Forget (queue w) key\<rparr>
      | Some e \<Rightarrow>
          if NumRequeues (queue w) key < 5 then
            (let w1 = w\<lparr>klog := klog w @ [Infof ''Error syncing pod %v: %v'' [key, e]]\<rparr>
             in w1\<lparr>queue := AddRateLimited (queue w1) key\<rparr>)
          else
            (let w1 = w\<lparr>queue := Forget (queue w) key\<rparr>;
                 w2 = w1\<lparr>HandleError := HandleError w1 @ [e]\<rparr>
             in w2\<lparr>klog := klog w2 @
                  [Infof ''Dropping pod %q out of the queue: %v'' [key, e]]\<rparr>))"

text \<open>\<open>None\<close>: the worker is blocked in \<open>Get\<close>. The deferred \<open>Done\<close> runs last.\<close>

definition processNextItem :: "world \<Rightarrow> (bool \<times> world) option" where
  "processNextItem w =
     (case Get (queue w) of
        None \<Rightarrow> None
      | Some ((key, quit), q) \<Rightarrow>
          if quit then Some (False, w\<lparr>queue := q\<rparr>)
          else
            (let w1 = w\<lparr>queue := q\<rparr>;
                 (er, w2) = syncToStdout key w1;
                 w3 = handleErr er key w2
             in Some (True, w3\<lparr>queue := Done (queue w3) key\<rparr>)))"

text \<open>
  \<^verbatim>\<open>for c.processNextItem() {}\<close>, with fuel for the number of iterations, and how the
  worker stands when the run ends.
\<close>

datatype worker = Exited | Waiting | Running

fun runWorker :: "nat \<Rightarrow> world \<Rightarrow> worker \<times> world" where
  "runWorker 0 w = (Running, w)"
| "runWorker (Suc n) w =
     (case processNextItem w of
        None \<Rightarrow> (Waiting, w)
      | Some (again, w1) \<Rightarrow> if again then runWorker n w1 else (Exited, w1))"

subsection \<open>The event handlers\<close>


definition UpdateFunc :: "KeyFunc \<Rightarrow> object \<Rightarrow> object \<Rightarrow> world \<Rightarrow> panic + world" where
  "UpdateFunc keyFunc old new w =
     (case old of
        EventPtr oldEvt \<Rightarrow>
          (case new of
             EventPtr newEvt \<Rightarrow>
               if Source newEvt \<noteq> Source oldEvt \<and> Reason oldEvt \<noteq> Reason newEvt then
                 (let w1 = w\<lparr>newEvent := (newEvent w)\<lparr>Obj := Some newEvt\<rparr>\<rparr>;
                      w2 = w1\<lparr>newEvent := (newEvent w1)\<lparr>Type := UpdateEvent\<rparr>\<rparr>;
                      (k, e) = keyFunc old;
                      w3 = w2\<lparr>newEvent := (newEvent w2)\<lparr>Key := k\<rparr>, err := e\<rparr>
                  in if err w3 = None
                     then Inr (w3\<lparr>queue := Add (queue w3) (Key (newEvent w3))\<rparr>)
                     else Inr w3)
               else Inr w
           | _ \<Rightarrow> Inl TypeAssertionPanic)
      | _ \<Rightarrow> Inl TypeAssertionPanic)"

definition DeleteFunc :: "KeyFunc \<Rightarrow> object \<Rightarrow> world \<Rightarrow> panic + world" where
  "DeleteFunc keyFunc ob w =
     (case ob of
        EventPtr evt \<Rightarrow>
          (let w1 = w\<lparr>newEvent := (newEvent w)\<lparr>Obj := Some evt\<rparr>\<rparr>;
               w2 = w1\<lparr>newEvent := (newEvent w1)\<lparr>Type := DeleteEvent\<rparr>\<rparr>;
               (k, e) = keyFunc ob;
               w3 = w2\<lparr>newEvent := (newEvent w2)\<lparr>Key := k\<rparr>, err := e\<rparr>
           in if err w3 = None then Inr (w3\<lparr>queue := Add (queue w3) (Key (newEvent w3))\<rparr>)
              else Inr w3)
      | _ \<Rightarrow> Inl TypeAssertionPanic)"

subsection \<open>The queue after one delivery\<close>

text \<open>
  The queue once a key delivered from the head of \<open>pending\<close>, with \<open>ks\<close> behind it,
  has been requeued by \<open>AddRateLimited\<close>, or forgotten, and \<open>Done\<close> has run.
\<close>

definition requeued :: "workqueue \<Rightarrow> string \<Rightarrow> string list \<Rightarrow> workqueue" where
  "requeued q key ks =
     q\<lparr>pending := ks @ [key], processing := processing q - {key},
       dirty := insert key (dirty q),
       retries := (retries q)(key := Suc (retries q key))\<rparr>"

definition forgotten :: "workqueue \<Rightarrow> string \<Rightarrow> string list \<Rightarrow> workqueue" where
  "forgotten q key ks =
     q\<lparr>pending := ks, processing := processing q - {key}, dirty := dirty q - {key},
       retries := (retries q)(key := 0)\<rparr>"

subsection \<open>A tracked field changed, as the specification words it\<close>

text \<open>
  The specification enqueues an update when a semantically meaningful field changed; the
  fields the handler tracks are \<open>Source\<close> and \<open>Reason\<close>.
\<close>

definition tracked_field_changed :: "v1_Event \<Rightarrow> v1_Event \<Rightarrow> bool" where
  "tracked_field_changed oldEvt newEvt =
     (Source oldEvt \<noteq> Source newEvt \<or> Reason oldEvt \<noteq> Reason newEvt)"

subsection \<open>The sink line as the specification words it\<close>

text \<open>
  The specification gives the line as \<^verbatim>\<open><name>: <namespace>/<kind>/<name>/<message>\n\<close>.
\<close>

definition spec_line :: "v1_Event \<Rightarrow> string" where
  "spec_line evt =
     Name evt @ '': '' @ Namespace evt @ ''/'' @ Kind evt @ ''/'' @ Name evt @ ''/''
       @ Message evt @ nl"

subsection \<open>Runs of the worker\<close>

text \<open>The klog lines of a failed lookup and of a drop.\<close>

definition fetch_failed :: "string \<Rightarrow> error \<Rightarrow> klog_call" where
  "fetch_failed key e =
     Errorf ''Fetching object with key %s from store failed with %v'' [key, e]"

definition dropping :: "string \<Rightarrow> error \<Rightarrow> klog_call" where
  "dropping key e = Infof ''Dropping pod %q out of the queue: %v'' [key, e]"

text \<open>
  The queue between two iterations of a single worker: every pending key once, the dirty
  set exactly the pending keys, nothing in processing, no shutdown requested.
\<close>

definition idle :: "workqueue \<Rightarrow> bool" where
  "idle q \<longleftrightarrow>
     distinct (pending q) \<and> dirty q = set (pending q) \<and> processing q = {} \<and> \<not> shuttingDown q"

text \<open>
  The number of deliveries a pending key still has ahead if nothing is added: one if its
  lookup succeeds, and one for each retry left up to the ceiling, plus one, if it fails.
\<close>

definition cost :: "world \<Rightarrow> string \<Rightarrow> nat" where
  "cost w k = (case indexer w k of Inl e \<Rightarrow> 6 - min 5 (retries (queue w) k) | Inr v \<Rightarrow> 1)"

definition work_left :: "world \<Rightarrow> nat" where
  "work_left w = sum_list (map (cost w) (pending (queue w)))"

text \<open>What one iteration does to the queue, the log and the reports, by the lookup result.\<close>

datatype outcome = Requeued error | Dropped error | Synced

definition outcome_of :: "world \<Rightarrow> string \<Rightarrow> outcome" where
  "outcome_of w h =
     (case indexer w h of
        Inl e \<Rightarrow> if retries (queue w) h < 5 then Requeued e else Dropped e
      | Inr v \<Rightarrow> Synced)"

text \<open>
  How often a key was delivered and failed with an error, how often it was dropped, and
  how often an error was reported, read off klog and the reports. \<open>owed\<close> and \<open>due\<close>
  are the deliveries and the drop a failing key still has ahead.
\<close>

definition deliveries :: "string \<Rightarrow> error \<Rightarrow> world \<Rightarrow> nat" where
  "deliveries key e w = count_list (klog w) (fetch_failed key e)"

definition drops :: "string \<Rightarrow> error \<Rightarrow> world \<Rightarrow> nat" where
  "drops key e w = count_list (klog w) (dropping key e)"

definition reports :: "error \<Rightarrow> world \<Rightarrow> nat" where
  "reports e w = count_list (HandleError w) e"

definition owed :: "string \<Rightarrow> world \<Rightarrow> nat" where
  "owed key w = (if key \<in> set (pending (queue w)) then 6 - retries (queue w) key else 0)"

definition due :: "string \<Rightarrow> world \<Rightarrow> nat" where
  "due key w = (if key \<in> set (pending (queue w)) then 1 else 0)"

subsection \<open>Example objects\<close>

definition example_evt :: v1_Event where
  "example_evt =
     \<lparr>Name = ''foo'', Namespace = ''ns'', Kind = ''Event'', Message = ''Pulled image'',
      Reason = ''Pulled'', Source = \<lparr>Component = ''kubelet'', Host = ''node1''\<rparr>\<rparr>"

definition empty_indexer :: "string \<Rightarrow> error + v1_Event option" where
  "empty_indexer k = Inr None"

definition closed_indexer :: "string \<Rightarrow> error + v1_Event option" where
  "closed_indexer k = Inl ''store closed''"

definition example_indexer :: "string \<Rightarrow> error + v1_Event option" where
  "example_indexer k = (if k = ''ns/foo'' then Inr (Some example_evt) else Inr None)"

definition example_queue :: "string list \<Rightarrow> workqueue" where
  "example_queue ks =
     \<lparr>pending = ks, dirty = set ks, processing = {}, retries = (\<lambda>k. 0),
      shuttingDown = False\<rparr>"

definition example_world ::
    "(string \<Rightarrow> error + v1_Event option) \<Rightarrow> string list \<Rightarrow> error option \<Rightarrow> world" where
  "example_world ix ks un =
     \<lparr>indexer = ix, queue = example_queue ks, f = \<lparr>written = [], unavailable = un\<rparr>,
      newEvent = \<lparr>Type = [], Obj = None, Key = []\<rparr>, err = None, stdout = [], klog = [],
      HandleError = []\<rparr>"

definition example_evt2 :: v1_Event where
  "example_evt2 =
     \<lparr>Name = ''bar'', Namespace = ''ns'', Kind = ''Event'', Message = ''Started container'',
      Reason = ''Started'', Source = \<lparr>Component = ''kubelet'', Host = ''node2''\<rparr>\<rparr>"

definition flaky_indexer :: "string \<Rightarrow> error + v1_Event option" where
  "flaky_indexer k = (if k = ''ns/foo'' then Inl ''store closed'' else Inr None)"

text \<open>A world whose queue has requeued every key five times.\<close>

definition exhausted_world :: world where
  "exhausted_world =
     (example_world closed_indexer [''ns/foo''] None)
       \<lparr>queue := (example_queue [''ns/foo''])\<lparr>retries := (\<lambda>k. 5)\<rparr>\<rparr>"

section \<open>Properties\<close>

lemmas queue_defs = Get_def Add_def Done_def Forget_def AddRateLimited_def NumRequeues_def

subsection \<open>One iteration of the worker\<close>

lemma processNextItem_blocks:
  "pending (queue w) = [] \<Longrightarrow> \<not> shuttingDown (queue w) \<Longrightarrow> processNextItem w = None"
  by (simp add: processNextItem_def Get_def)

lemma processNextItem_requeue:
  assumes "pending (queue w) = key # ks" and "indexer w key = Inl e"
    and "retries (queue w) key < 5"
  shows "processNextItem w =
      Some (True, w\<lparr>klog := klog w @
          [Errorf ''Fetching object with key %s from store failed with %v'' [key, e],
           Infof ''Error syncing pod %v: %v'' [key, e]],
         queue := requeued (queue w) key ks\<rparr>)"
  using assms
  by (simp add: processNextItem_def syncToStdout_def handleErr_def queue_defs requeued_def Let_def)

lemma processNextItem_drop:
  assumes "pending (queue w) = key # ks" and "indexer w key = Inl e"
    and "\<not> retries (queue w) key < 5"
  shows "processNextItem w =
      Some (True, w\<lparr>klog := klog w @
          [Errorf ''Fetching object with key %s from store failed with %v'' [key, e],
           Infof ''Dropping pod %q out of the queue: %v'' [key, e]],
         HandleError := HandleError w @ [e],
         queue := forgotten (queue w) key ks\<rparr>)"
  using assms
  by (simp add: processNextItem_def syncToStdout_def handleErr_def queue_defs forgotten_def Let_def)

lemma processNextItem_absent:
  assumes "pending (queue w) = key # ks" and "indexer w key = Inr None"
  shows "processNextItem w =
      Some (True, w\<lparr>stdout := stdout w @ [Printf (''Pod %s does not exist anymore'' @ nl) [key]],
         queue := forgotten (queue w) key ks\<rparr>)"
  using assms
  by (simp add: processNextItem_def syncToStdout_def handleErr_def queue_defs forgotten_def Let_def)

lemma processNextItem_written:
  assumes "pending (queue w) = key # ks" and "indexer w key = Inr (Some evt)"
    and "unavailable (f w) = None"
  shows "processNextItem w =
      Some (True, w\<lparr>stdout := stdout w @ [Printf (Sprintf_msg evt) []],
         f := (f w)\<lparr>written := written (f w) @ Sprintf_msg evt\<rparr>,
         queue := forgotten (queue w) key ks\<rparr>)"
  using assms
  by (simp add: processNextItem_def syncToStdout_def WriteString_def handleErr_def queue_defs
      forgotten_def Let_def)

lemma processNextItem_write_error:
  assumes "pending (queue w) = key # ks" and "indexer w key = Inr (Some evt)"
    and "unavailable (f w) = Some e"
  shows "processNextItem w =
      Some (True, w\<lparr>stdout := stdout w @
           [Printf (Sprintf_msg evt) [], Printf ''write file error %s'' [e]],
         queue := forgotten (queue w) key ks\<rparr>)"
  using assms
  by (simp add: processNextItem_def syncToStdout_def WriteString_def handleErr_def queue_defs
      forgotten_def Let_def)

subsection \<open>The error handler\<close>

lemma handleErr_nil: "handleErr None key w = w\<lparr>queue := Forget (queue w) key\<rparr>"
  by (simp add: handleErr_def)

lemma handleErr_requeue:
  "NumRequeues (queue w) key < 5 \<Longrightarrow>
   handleErr (Some e) key w =
     w\<lparr>klog := klog w @ [Infof ''Error syncing pod %v: %v'' [key, e]],
       queue := AddRateLimited (queue w) key\<rparr>"
  by (simp add: handleErr_def Let_def)

lemma handleErr_drop:
  "\<not> NumRequeues (queue w) key < 5 \<Longrightarrow>
   handleErr (Some e) key w =
     w\<lparr>queue := Forget (queue w) key, HandleError := HandleError w @ [e],
       klog := klog w @ [Infof ''Dropping pod %q out of the queue: %v'' [key, e]]\<rparr>"
  by (simp add: handleErr_def Let_def)

lemma NumRequeues_AddRateLimited:
  "NumRequeues (AddRateLimited q k) k = Suc (NumRequeues q k)"
  by (simp add: AddRateLimited_def Add_def NumRequeues_def)

lemma NumRequeues_Forget: "NumRequeues (Forget q k) k = 0"
  by (simp add: Forget_def NumRequeues_def)

lemma handleErr_requeue_facts:
  assumes "NumRequeues (queue w) key < 5"
  shows "queue (handleErr (Some e) key w) = AddRateLimited (queue w) key"
    and "NumRequeues (queue (handleErr (Some e) key w)) key = Suc (NumRequeues (queue w) key)"
    and "HandleError (handleErr (Some e) key w) = HandleError w"
  using assms by (simp_all add: handleErr_requeue NumRequeues_AddRateLimited)

subsection \<open>The event handlers\<close>


lemma DeleteFunc_enqueue:
  "keyFunc (EventPtr evt) = (k, None) \<Longrightarrow>
   DeleteFunc keyFunc (EventPtr evt) w =
     Inr (w\<lparr>newEvent := \<lparr>Type = DeleteEvent, Obj = Some evt, Key = k\<rparr>, err := None,
            queue := Add (queue w) k\<rparr>)"
  by (simp add: DeleteFunc_def Let_def)

lemma DeleteFunc_tombstone:
  "DeleteFunc keyFunc (DeletedFinalStateUnknown k ob) w = Inl TypeAssertionPanic"
  by (simp add: DeleteFunc_def)

lemma UpdateFunc_filtered:
  "\<not> (Source newEvt \<noteq> Source oldEvt \<and> Reason oldEvt \<noteq> Reason newEvt) \<Longrightarrow>
   UpdateFunc keyFunc (EventPtr oldEvt) (EventPtr newEvt) w = Inr w"
  by (auto simp: UpdateFunc_def)

lemma UpdateFunc_enqueue:
  "Source newEvt \<noteq> Source oldEvt \<Longrightarrow> Reason oldEvt \<noteq> Reason newEvt \<Longrightarrow>
   keyFunc (EventPtr oldEvt) = (k, None) \<Longrightarrow>
   UpdateFunc keyFunc (EventPtr oldEvt) (EventPtr newEvt) w =
     Inr (w\<lparr>newEvent := \<lparr>Type = UpdateEvent, Obj = Some newEvt, Key = k\<rparr>, err := None,
            queue := Add (queue w) k\<rparr>)"
  by (simp add: UpdateFunc_def Let_def)




subsection \<open>Runs of the worker\<close>

lemma cost_pos: "0 < cost w k"
  by (auto simp: cost_def min_def split: sum.split)

lemma cost_cong:
  "indexer w1 = indexer w \<Longrightarrow> retries (queue w1) k = retries (queue w) k \<Longrightarrow>
   cost w1 k = cost w k"
  by (simp add: cost_def split: sum.split)

lemma sum_cost_cong:
  assumes "indexer w1 = indexer w" and "\<forall>k\<in>set ks. retries (queue w1) k = retries (queue w) k"
  shows "sum_list (map (cost w1) ks) = sum_list (map (cost w) ks)"
proof -
  have "cost w1 k = cost w k" if "k \<in> set ks" for k
    using that assms by (intro cost_cong) simp_all
  then have "map (cost w1) ks = map (cost w) ks"
    by (intro map_cong) simp_all
  then show ?thesis by (rule arg_cong)
qed

lemma idle_requeued:
  "idle q \<Longrightarrow> pending q = h # ks \<Longrightarrow> idle (requeued q h ks)"
  by (auto simp: idle_def requeued_def)

lemma idle_forgotten:
  "idle q \<Longrightarrow> pending q = h # ks \<Longrightarrow> idle (forgotten q h ks)"
  by (auto simp: idle_def forgotten_def)

lemma work_left_requeued:
  assumes "idle (queue w)" and "pending (queue w) = h # ks" and "indexer w h = Inl e"
    and "retries (queue w) h < 5"
    and "indexer w1 = indexer w" and "queue w1 = requeued (queue w) h ks"
  shows "work_left w1 < work_left w"
proof -
  have nh: "h \<notin> set ks"
    using assms(1,2) by (simp add: idle_def)
  then have "\<forall>k\<in>set ks. retries (queue w1) k = retries (queue w) k"
    using assms(6) by (auto simp: requeued_def)
  from sum_cost_cong [OF assms(5) this]
  have 1: "sum_list (map (cost w1) ks) = sum_list (map (cost w) ks)" .
  have 2: "cost w1 h < cost w h"
    using assms(3,4,5,6) by (simp add: cost_def requeued_def)
  have "work_left w1 = sum_list (map (cost w1) ks) + cost w1 h"
    using assms(6) by (simp add: work_left_def requeued_def)
  moreover have "work_left w = cost w h + sum_list (map (cost w) ks)"
    using assms(2) by (simp add: work_left_def)
  ultimately show ?thesis using 1 2 by simp
qed

lemma work_left_forgotten:
  assumes "idle (queue w)" and "pending (queue w) = h # ks"
    and "indexer w1 = indexer w" and "queue w1 = forgotten (queue w) h ks"
  shows "work_left w1 < work_left w"
proof -
  have nh: "h \<notin> set ks"
    using assms(1,2) by (simp add: idle_def)
  then have "\<forall>k\<in>set ks. retries (queue w1) k = retries (queue w) k"
    using assms(4) by (auto simp: forgotten_def)
  from sum_cost_cong [OF assms(3) this]
  have 1: "sum_list (map (cost w1) ks) = sum_list (map (cost w) ks)" .
  have "work_left w1 = sum_list (map (cost w1) ks)"
    using assms(4) by (simp add: work_left_def forgotten_def)
  moreover have "work_left w = cost w h + sum_list (map (cost w) ks)"
    using assms(2) by (simp add: work_left_def)
  ultimately show ?thesis using 1 cost_pos [of w h] by simp
qed

lemma step_summary:
  assumes i: "idle (queue w)" and p: "pending (queue w) = h # ks"
  shows "\<exists>w1. processNextItem w = Some (True, w1) \<and> idle (queue w1) \<and>
     indexer w1 = indexer w \<and> work_left w1 < work_left w \<and>
     (case outcome_of w h of
        Requeued e \<Rightarrow> queue w1 = requeued (queue w) h ks \<and>
          klog w1 = klog w @ [fetch_failed h e, Infof ''Error syncing pod %v: %v'' [h, e]] \<and>
          HandleError w1 = HandleError w
      | Dropped e \<Rightarrow> queue w1 = forgotten (queue w) h ks \<and>
          klog w1 = klog w @ [fetch_failed h e, dropping h e] \<and>
          HandleError w1 = HandleError w @ [e]
      | Synced \<Rightarrow> queue w1 = forgotten (queue w) h ks \<and>
          klog w1 = klog w \<and> HandleError w1 = HandleError w)"
proof (cases "indexer w h")
  case (Inl e)
  show ?thesis
  proof (cases "retries (queue w) h < 5")
    case True
    let ?w1 = "w\<lparr>klog := klog w @ [fetch_failed h e, Infof ''Error syncing pod %v: %v'' [h, e]],
         queue := requeued (queue w) h ks\<rparr>"
    have "processNextItem w = Some (True, ?w1)"
      using processNextItem_requeue [OF p Inl True] by (simp add: fetch_failed_def)
    moreover have "idle (queue ?w1)"
      using idle_requeued [OF i p] by simp
    moreover have "work_left ?w1 < work_left w"
      by (rule work_left_requeued [OF i p Inl True]) simp_all
    ultimately show ?thesis
      using Inl True by (simp add: outcome_of_def)
  next
    case False
    let ?w1 = "w\<lparr>klog := klog w @ [fetch_failed h e, dropping h e],
         HandleError := HandleError w @ [e],
         queue := forgotten (queue w) h ks\<rparr>"
    have "processNextItem w = Some (True, ?w1)"
      using processNextItem_drop [OF p Inl False] by (simp add: fetch_failed_def dropping_def)
    moreover have "idle (queue ?w1)"
      using idle_forgotten [OF i p] by simp
    moreover have "work_left ?w1 < work_left w"
      by (rule work_left_forgotten [OF i p]) simp_all
    ultimately show ?thesis
      using Inl False by (simp add: outcome_of_def)
  qed
next
  case (Inr v)
  have "\<exists>w1. processNextItem w = Some (True, w1) \<and> indexer w1 = indexer w \<and>
      queue w1 = forgotten (queue w) h ks \<and> klog w1 = klog w \<and> HandleError w1 = HandleError w"
  proof (cases v)
    case None
    with Inr processNextItem_absent [OF p] show ?thesis by simp
  next
    case (Some evt)
    show ?thesis
    proof (cases "unavailable (f w)")
      case None
      with Inr Some processNextItem_written [OF p] show ?thesis by simp
    next
      case (Some e)
      with Inr \<open>v = Some evt\<close> processNextItem_write_error [OF p] show ?thesis by simp
    qed
  qed
  then obtain w1 where w1: "processNextItem w = Some (True, w1)" "indexer w1 = indexer w"
      "queue w1 = forgotten (queue w) h ks" "klog w1 = klog w" "HandleError w1 = HandleError w"
    by blast
  have "idle (queue w1)"
    using idle_forgotten [OF i p] w1(3) by simp
  moreover have "work_left w1 < work_left w"
    by (rule work_left_forgotten [OF i p w1(2,3)])
  ultimately show ?thesis
    using w1 Inr by (auto simp: outcome_of_def)
qed

lemma step_accounting:
  assumes i: "idle (queue w)" and p: "pending (queue w) = h # ks"
    and k: "indexer w key = Inl e" and r: "retries (queue w) key \<le> 5"
  shows "\<exists>w1. processNextItem w = Some (True, w1) \<and> idle (queue w1) \<and>
     indexer w1 = indexer w \<and> work_left w1 < work_left w \<and>
     retries (queue w1) key \<le> 5 \<and> set (pending (queue w1)) \<subseteq> set (pending (queue w)) \<and>
     deliveries key e w1 + owed key w1 = deliveries key e w + owed key w \<and>
     drops key e w1 + due key w1 = drops key e w + due key w \<and>
     ((\<forall>x\<in>set (pending (queue w)). x \<noteq> key \<longrightarrow> indexer w x \<noteq> Inl e) \<longrightarrow>
        reports e w1 + due key w1 = reports e w + due key w)"
proof -
  from step_summary [OF i p] obtain w1 where
    s: "processNextItem w = Some (True, w1)" "idle (queue w1)" "indexer w1 = indexer w"
       "work_left w1 < work_left w"
    and o: "case outcome_of w h of
        Requeued e \<Rightarrow> queue w1 = requeued (queue w) h ks \<and>
          klog w1 = klog w @ [fetch_failed h e, Infof ''Error syncing pod %v: %v'' [h, e]] \<and>
          HandleError w1 = HandleError w
      | Dropped e \<Rightarrow> queue w1 = forgotten (queue w) h ks \<and>
          klog w1 = klog w @ [fetch_failed h e, dropping h e] \<and>
          HandleError w1 = HandleError w @ [e]
      | Synced \<Rightarrow> queue w1 = forgotten (queue w) h ks \<and>
          klog w1 = klog w \<and> HandleError w1 = HandleError w"
    by blast
  have nh: "h \<notin> set ks"
    using i p by (simp add: idle_def)
  have acc: "retries (queue w1) key \<le> 5 \<and> set (pending (queue w1)) \<subseteq> set (pending (queue w)) \<and>
     deliveries key e w1 + owed key w1 = deliveries key e w + owed key w \<and>
     drops key e w1 + due key w1 = drops key e w + due key w \<and>
     ((\<forall>x\<in>set (pending (queue w)). x \<noteq> key \<longrightarrow> indexer w x \<noteq> Inl e) \<longrightarrow>
        reports e w1 + due key w1 = reports e w + due key w)"
  proof (cases "outcome_of w h")
    case (Requeued e')
    then have ih: "indexer w h = Inl e'" and rh: "retries (queue w) h < 5"
      by (auto simp: outcome_of_def split: sum.splits if_splits)
    from o Requeued have q: "queue w1 = requeued (queue w) h ks"
      and l: "klog w1 = klog w @ [fetch_failed h e', Infof ''Error syncing pod %v: %v'' [h, e']]"
      and r1: "HandleError w1 = HandleError w"
      by simp_all
    show ?thesis
    proof (cases "h = key")
      case True
      with ih k have "e' = e" by simp
      with True p q l r1 rh show ?thesis
        by (simp add: deliveries_def drops_def reports_def owed_def due_def requeued_def fetch_failed_def
            dropping_def)
    next
      case False
      with p q l r1 r show ?thesis
        by (simp add: deliveries_def drops_def reports_def owed_def due_def requeued_def fetch_failed_def
            dropping_def)
    qed
  next
    case (Dropped e')
    then have ih: "indexer w h = Inl e'" and rh: "\<not> retries (queue w) h < 5"
      by (auto simp: outcome_of_def split: sum.splits if_splits)
    from o Dropped have q: "queue w1 = forgotten (queue w) h ks"
      and l: "klog w1 = klog w @ [fetch_failed h e', dropping h e']"
      and r1: "HandleError w1 = HandleError w @ [e']"
      by simp_all
    show ?thesis
    proof (cases "h = key")
      case True
      with ih k have "e' = e" by simp
      moreover from True r rh have "retries (queue w) key = 5" by simp
      ultimately show ?thesis
        using True p q l r1 nh
        by (auto simp: deliveries_def drops_def reports_def owed_def due_def forgotten_def fetch_failed_def
            dropping_def)
    next
      case False
      have "(\<forall>x\<in>set (pending (queue w)). x \<noteq> key \<longrightarrow> indexer w x \<noteq> Inl e) \<longrightarrow> e' \<noteq> e"
        using False p ih by auto
      with False p q l r1 r show ?thesis
        by (auto simp: deliveries_def drops_def reports_def owed_def due_def forgotten_def fetch_failed_def
            dropping_def)
    qed
  next
    case Synced
    then have "h \<noteq> key"
      using k by (auto simp: outcome_of_def split: sum.splits if_splits)
    moreover from o Synced have "queue w1 = forgotten (queue w) h ks"
      "klog w1 = klog w" "HandleError w1 = HandleError w"
      by simp_all
    ultimately show ?thesis
      using p r
      by (auto simp: deliveries_def drops_def reports_def owed_def due_def forgotten_def)
  qed
  with s show ?thesis by blast
qed

lemma runWorker_blocked:
  "processNextItem w = None \<Longrightarrow> 1 \<le> m \<Longrightarrow> runWorker m w = (Waiting, w)"
  by (cases m) simp_all

lemma runWorker_again:
  "processNextItem w = Some (True, w1) \<Longrightarrow> runWorker (Suc m) w = runWorker m w1"
  by simp

lemma drains:
  assumes "idle (queue w)" and "indexer w key = Inl e" and "retries (queue w) key \<le> 5"
  shows "\<exists>n w'. (\<forall>m\<ge>n. runWorker m w = (Waiting, w')) \<and> pending (queue w') = [] \<and>
     idle (queue w') \<and> indexer w' = indexer w \<and>
     deliveries key e w' = deliveries key e w + owed key w \<and>
     drops key e w' = drops key e w + due key w \<and>
     ((\<forall>x\<in>set (pending (queue w)). x \<noteq> key \<longrightarrow> indexer w x \<noteq> Inl e) \<longrightarrow>
        reports e w' = reports e w + due key w)"
  using assms
proof (induction "work_left w" arbitrary: w rule: less_induct)
  case less
  show ?case
  proof (cases "pending (queue w)")
    case Nil
    with less.prems(1) have "processNextItem w = None"
      by (simp add: processNextItem_blocks idle_def)
    then have "\<forall>m\<ge>1. runWorker m w = (Waiting, w)"
      by (simp add: runWorker_blocked)
    moreover have "owed key w = 0" "due key w = 0"
      using Nil by (simp_all add: owed_def due_def)
    ultimately show ?thesis
      using Nil less.prems(1) by (intro exI [of _ 1] exI [of _ w]) simp
  next
    case (Cons h ks)
    from step_accounting [OF less.prems(1) Cons less.prems(2,3)] obtain w1 where
      s: "processNextItem w = Some (True, w1)" and i1: "idle (queue w1)"
      and x1: "indexer w1 = indexer w" and m1: "work_left w1 < work_left w"
      and r1: "retries (queue w1) key \<le> 5"
      and sub: "set (pending (queue w1)) \<subseteq> set (pending (queue w))"
      and d1: "deliveries key e w1 + owed key w1 = deliveries key e w + owed key w"
      and p1: "drops key e w1 + due key w1 = drops key e w + due key w"
      and h1: "(\<forall>x\<in>set (pending (queue w)). x \<noteq> key \<longrightarrow> indexer w x \<noteq> Inl e) \<longrightarrow>
        reports e w1 + due key w1 = reports e w + due key w"
      by blast
    have k1: "indexer w1 key = Inl e"
      using x1 less.prems(2) by simp
    from less.hyps [OF m1 i1 k1 r1] obtain n w' where
      run: "\<forall>m\<ge>n. runWorker m w1 = (Waiting, w')" and e: "pending (queue w') = []"
      and i': "idle (queue w')" and x': "indexer w' = indexer w1"
      and d': "deliveries key e w' = deliveries key e w1 + owed key w1"
      and p': "drops key e w' = drops key e w1 + due key w1"
      and h': "(\<forall>x\<in>set (pending (queue w1)). x \<noteq> key \<longrightarrow> indexer w1 x \<noteq> Inl e) \<longrightarrow>
        reports e w' = reports e w1 + due key w1"
      by blast
    have "runWorker m w = (Waiting, w')" if "Suc n \<le> m" for m
    proof -
      from that obtain m' where m: "m = Suc m'" and "n \<le> m'"
        by (cases m) simp_all
      with run s show ?thesis by simp
    qed
    moreover have "(\<forall>x\<in>set (pending (queue w)). x \<noteq> key \<longrightarrow> indexer w x \<noteq> Inl e) \<longrightarrow>
        reports e w' = reports e w + due key w"
    proof
      assume a: "\<forall>x\<in>set (pending (queue w)). x \<noteq> key \<longrightarrow> indexer w x \<noteq> Inl e"
      with sub x1 have "\<forall>x\<in>set (pending (queue w1)). x \<noteq> key \<longrightarrow> indexer w1 x \<noteq> Inl e"
        by auto
      with h' h1 a show "reports e w' = reports e w + due key w" by simp
    qed
    ultimately show ?thesis
      using e i' x' x1 d' d1 p' p1
      by (intro exI [of _ "Suc n"] exI [of _ w']) simp
  qed
qed

text \<open>The run of the worker on a queue that holds one key whose lookup always fails.\<close>

lemma runWorker_requeue:
  assumes "pending (queue w) = key # ks" and "indexer w key = Inl e"
    and "retries (queue w) key < 5"
  shows "runWorker (Suc n) w =
     runWorker n (w\<lparr>klog := klog w @
          [fetch_failed key e, Infof ''Error syncing pod %v: %v'' [key, e]],
         queue := requeued (queue w) key ks\<rparr>)"
  using processNextItem_requeue [OF assms] by (simp add: fetch_failed_def)

lemma runWorker_drop:
  assumes "pending (queue w) = key # ks" and "indexer w key = Inl e"
    and "\<not> retries (queue w) key < 5"
  shows "runWorker (Suc n) w =
     runWorker n (w\<lparr>klog := klog w @ [fetch_failed key e, dropping key e],
         HandleError := HandleError w @ [e],
         queue := forgotten (queue w) key ks\<rparr>)"
  using processNextItem_drop [OF assms] by (simp add: fetch_failed_def dropping_def)

lemma example_run:
  "runWorker 6 (example_world closed_indexer [''ns/foo''] None) =
     (Running, (example_world closed_indexer [] None)
        \<lparr>klog := [fetch_failed ''ns/foo'' ''store closed'',
                  Infof ''Error syncing pod %v: %v'' [''ns/foo'', ''store closed''],
                  fetch_failed ''ns/foo'' ''store closed'',
                  Infof ''Error syncing pod %v: %v'' [''ns/foo'', ''store closed''],
                  fetch_failed ''ns/foo'' ''store closed'',
                  Infof ''Error syncing pod %v: %v'' [''ns/foo'', ''store closed''],
                  fetch_failed ''ns/foo'' ''store closed'',
                  Infof ''Error syncing pod %v: %v'' [''ns/foo'', ''store closed''],
                  fetch_failed ''ns/foo'' ''store closed'',
                  Infof ''Error syncing pod %v: %v'' [''ns/foo'', ''store closed''],
                  fetch_failed ''ns/foo'' ''store closed'',
                  dropping ''ns/foo'' ''store closed''],
         HandleError := [''store closed'']\<rparr>) \<and>
   runWorker 7 (example_world closed_indexer [''ns/foo''] None) =
     (Waiting, snd (runWorker 6 (example_world closed_indexer [''ns/foo''] None)))"
proof -
  let ?w = "example_world closed_indexer [''ns/foo''] None"
  let ?ff = "fetch_failed ''ns/foo'' ''store closed''"
  let ?es = "Infof ''Error syncing pod %v: %v'' [''ns/foo'', ''store closed'']"
  define st where "st n l = ?w\<lparr>klog := l,
      queue := (example_queue [''ns/foo''])\<lparr>retries := (\<lambda>k. 0)(''ns/foo'' := n)\<rparr>\<rparr>" for n l
  define fin where "fin l = (example_world closed_indexer [] None)
         \<lparr>klog := l @ [?ff, dropping ''ns/foo'' ''store closed''],
          HandleError := [''store closed'']\<rparr>" for l
  have step: "runWorker (Suc m) (st n l) = runWorker m (st (Suc n) (l @ [?ff, ?es]))"
    if "n < 5" for m n l
    using that
    by (subst runWorker_requeue [where key = "''ns/foo''" and ks = "[]" and e = "''store closed''"])
      (auto simp: st_def example_world_def example_queue_def closed_indexer_def requeued_def)
  have last: "runWorker (Suc m) (st n l) = runWorker m (fin l)" if "n = 5" for m n l
    using that
    by (subst runWorker_drop [where key = "''ns/foo''" and ks = "[]" and e = "''store closed''"])
      (auto simp: st_def fin_def example_world_def example_queue_def closed_indexer_def
        forgotten_def fun_upd_idem)
  have blocked: "runWorker (Suc m) (fin l) = (Waiting, fin l)" for m l
    by (rule runWorker_blocked [OF processNextItem_blocks])
      (simp_all add: fin_def example_world_def example_queue_def)
  have start: "?w = st 0 []"
    by (simp add: st_def example_world_def example_queue_def fun_eq_iff)
  have run: "runWorker (6 + m) ?w =
      runWorker m (fin [?ff, ?es, ?ff, ?es, ?ff, ?es, ?ff, ?es, ?ff, ?es])" for m
    by (simp add: start step last eval_nat_numeral del: runWorker.simps)
  have six: "runWorker 6 ?w = (Running, fin [?ff, ?es, ?ff, ?es, ?ff, ?es, ?ff, ?es, ?ff, ?es])"
    using run [of 0] by simp
  have "runWorker (6 + Suc 0) ?w =
      (Waiting, fin [?ff, ?es, ?ff, ?es, ?ff, ?es, ?ff, ?es, ?ff, ?es])"
    by (simp only: run blocked)
  then have seven: "runWorker 7 ?w =
      (Waiting, fin [?ff, ?es, ?ff, ?es, ?ff, ?es, ?ff, ?es, ?ff, ?es])"
    by simp
  show ?thesis
    unfolding six seven by (simp add: fin_def)
qed

subsection \<open>The claims\<close>

text \<open>
  C1. For a key whose lookup fails with an error: \<open>handleErr\<close> requeues the key with
  \<open>AddRateLimited\<close>, reporting nothing, while \<open>NumRequeues\<close> is below 5, and otherwise
  calls \<open>Forget\<close>, reports the error once and does not requeue. Hence, from an idle
  queue that holds the key with a counter of 0, the worker comes to wait on an empty queue
  for good, having delivered the key exactly 6 times and dropped it exactly once; the
  error was reported exactly once if no other pending key fails with the same error.
\<close>

theorem C1_retry_ceiling:
  assumes "indexer w key = Inl e"
  shows "(NumRequeues (queue w) key < 5 \<longrightarrow>
       handleErr (Some e) key w =
         w\<lparr>klog := klog w @ [Infof ''Error syncing pod %v: %v'' [key, e]],
           queue := AddRateLimited (queue w) key\<rparr>) \<and>
    (\<not> NumRequeues (queue w) key < 5 \<longrightarrow>
       handleErr (Some e) key w =
         w\<lparr>queue := Forget (queue w) key, HandleError := HandleError w @ [e],
           klog := klog w @ [dropping key e]\<rparr>) \<and>
    (idle (queue w) \<and> key \<in> set (pending (queue w)) \<and> NumRequeues (queue w) key = 0 \<longrightarrow>
       (\<exists>n w'. (\<forall>m\<ge>n. runWorker m w = (Waiting, w')) \<and>
          pending (queue w') = [] \<and> key \<notin> dirty (queue w') \<and>
          deliveries key e w' = deliveries key e w + 6 \<and>
          drops key e w' = drops key e w + 1 \<and>
          ((\<forall>x\<in>set (pending (queue w)). x \<noteq> key \<longrightarrow> indexer w x \<noteq> Inl e) \<longrightarrow>
             reports e w' = reports e w + 1)))"
proof (intro conjI impI)
  assume "NumRequeues (queue w) key < 5"
  then show "handleErr (Some e) key w =
      w\<lparr>klog := klog w @ [Infof ''Error syncing pod %v: %v'' [key, e]],
        queue := AddRateLimited (queue w) key\<rparr>"
    by (rule handleErr_requeue)
next
  assume "\<not> NumRequeues (queue w) key < 5"
  then show "handleErr (Some e) key w =
      w\<lparr>queue := Forget (queue w) key, HandleError := HandleError w @ [e],
        klog := klog w @ [dropping key e]\<rparr>"
    by (simp add: handleErr_drop dropping_def)
next
  assume a: "idle (queue w) \<and> key \<in> set (pending (queue w)) \<and> NumRequeues (queue w) key = 0"
  then have i: "idle (queue w)" and r: "retries (queue w) key \<le> 5"
    and o: "owed key w = 6" "due key w = 1"
    by (simp_all add: NumRequeues_def owed_def due_def)
  from drains [OF i assms r] obtain n w' where
    run: "\<forall>m\<ge>n. runWorker m w = (Waiting, w')" and e: "pending (queue w') = []"
    and i': "idle (queue w')"
    and d: "deliveries key e w' = deliveries key e w + owed key w"
    and p: "drops key e w' = drops key e w + due key w"
    and h: "(\<forall>x\<in>set (pending (queue w)). x \<noteq> key \<longrightarrow> indexer w x \<noteq> Inl e) \<longrightarrow>
        reports e w' = reports e w + due key w"
    by blast
  from i' e have "key \<notin> dirty (queue w')"
    by (simp add: idle_def)
  with run e d p h o
  show "\<exists>n w'. (\<forall>m\<ge>n. runWorker m w = (Waiting, w')) \<and>
          pending (queue w') = [] \<and> key \<notin> dirty (queue w') \<and>
          deliveries key e w' = deliveries key e w + 6 \<and>
          drops key e w' = drops key e w + 1 \<and>
          ((\<forall>x\<in>set (pending (queue w)). x \<noteq> key \<longrightarrow> indexer w x \<noteq> Inl e) \<longrightarrow>
             reports e w' = reports e w + 1)"
    by (intro exI [of _ n] exI [of _ w']) simp
qed

theorem C1_witness:
  "indexer (example_world flaky_indexer [''ns/foo'', ''ns/bar''] None) ''ns/foo''
     = Inl ''store closed'' \<and>
   idle (queue (example_world flaky_indexer [''ns/foo'', ''ns/bar''] None)) \<and>
   ''ns/foo'' \<in> set (pending (queue (example_world flaky_indexer [''ns/foo'', ''ns/bar''] None))) \<and>
   NumRequeues (queue (example_world flaky_indexer [''ns/foo'', ''ns/bar''] None)) ''ns/foo'' = 0 \<and>
   indexer (example_world flaky_indexer [''ns/foo'', ''ns/bar''] None) ''ns/bar''
     \<noteq> Inl ''store closed'' \<and>
   handleErr (Some ''store closed'') ''ns/foo''
       (example_world flaky_indexer [''ns/foo'', ''ns/bar''] None) =
     (example_world flaky_indexer [''ns/foo'', ''ns/bar''] None)
       \<lparr>klog := [Infof ''Error syncing pod %v: %v'' [''ns/foo'', ''store closed'']],
        queue := AddRateLimited (example_queue [''ns/foo'', ''ns/bar'']) ''ns/foo''\<rparr> \<and>
   (\<exists>n w'. (\<forall>m\<ge>n. runWorker m (example_world flaky_indexer [''ns/foo'', ''ns/bar''] None)
                = (Waiting, w')) \<and>
      pending (queue w') = [] \<and>
      deliveries ''ns/foo'' ''store closed'' w' = 6 \<and>
      drops ''ns/foo'' ''store closed'' w' = 1 \<and>
      reports ''store closed'' w' = 1) \<and>
   indexer exhausted_world ''ns/foo'' = Inl ''store closed'' \<and>
   NumRequeues (queue exhausted_world) ''ns/foo'' = 5 \<and>
   handleErr (Some ''store closed'') ''ns/foo'' exhausted_world =
     exhausted_world
       \<lparr>queue := Forget (queue exhausted_world) ''ns/foo'',
        HandleError := [''store closed''],
        klog := [dropping ''ns/foo'' ''store closed'']\<rparr>"
proof -
  let ?w = "example_world flaky_indexer [''ns/foo'', ''ns/bar''] None"
  have h: "indexer ?w ''ns/foo'' = Inl ''store closed''"
    by (simp add: example_world_def flaky_indexer_def)
  have i: "idle (queue ?w)"
    by (simp add: example_world_def example_queue_def idle_def)
  have p: "''ns/foo'' \<in> set (pending (queue ?w))"
    by (simp add: example_world_def example_queue_def)
  have n: "NumRequeues (queue ?w) ''ns/foo'' = 0"
    by (simp add: example_world_def example_queue_def NumRequeues_def)
  have b: "indexer ?w ''ns/bar'' \<noteq> Inl ''store closed''"
    by (simp add: example_world_def flaky_indexer_def)
  have o: "\<forall>x\<in>set (pending (queue ?w)). x \<noteq> ''ns/foo'' \<longrightarrow> indexer ?w x \<noteq> Inl ''store closed''"
    by (simp add: example_world_def example_queue_def flaky_indexer_def)
  have z: "deliveries ''ns/foo'' ''store closed'' ?w = 0" "drops ''ns/foo'' ''store closed'' ?w = 0"
    "reports ''store closed'' ?w = 0" "klog ?w = []" "queue ?w = example_queue [''ns/foo'', ''ns/bar'']"
    by (simp_all add: example_world_def deliveries_def drops_def reports_def)
  from C1_retry_ceiling [OF h] i p n o z
  have 1: "handleErr (Some ''store closed'') ''ns/foo'' ?w =
     ?w\<lparr>klog := [Infof ''Error syncing pod %v: %v'' [''ns/foo'', ''store closed'']],
        queue := AddRateLimited (example_queue [''ns/foo'', ''ns/bar'']) ''ns/foo''\<rparr>"
    and 2: "\<exists>n w'. (\<forall>m\<ge>n. runWorker m ?w = (Waiting, w')) \<and>
      pending (queue w') = [] \<and>
      deliveries ''ns/foo'' ''store closed'' w' = 6 \<and>
      drops ''ns/foo'' ''store closed'' w' = 1 \<and>
      reports ''store closed'' w' = 1"
    by auto
  have h5: "indexer exhausted_world ''ns/foo'' = Inl ''store closed''"
    by (simp add: exhausted_world_def example_world_def closed_indexer_def)
  have n5: "NumRequeues (queue exhausted_world) ''ns/foo'' = 5"
    by (simp add: exhausted_world_def NumRequeues_def)
  have z5: "HandleError exhausted_world = []" "klog exhausted_world = []"
    by (simp_all add: exhausted_world_def example_world_def)
  from C1_retry_ceiling [OF h5] n5 z5
  have 3: "handleErr (Some ''store closed'') ''ns/foo'' exhausted_world =
     exhausted_world
       \<lparr>queue := Forget (queue exhausted_world) ''ns/foo'',
        HandleError := [''store closed''],
        klog := [dropping ''ns/foo'' ''store closed'']\<rparr>"
    by simp
  from h i p n b 1 2 h5 n5 3 show ?thesis by blast
qed

text \<open>
  C7. When \<^verbatim>\<open>GetByKey\<close> fails for a key with a lookup error, \<open>syncToStdout\<close> returns
  that error, and the iteration of the worker that delivered the key treats it as any
  sync failure: below the ceiling the key is requeued with its counter incremented and
  nothing is reported; at the ceiling it is forgotten, not requeued, and the error is
  passed to \<^verbatim>\<open>runtime.HandleError\<close>.
\<close>

theorem C7_cache_read_failure:
  assumes "indexer w key = Inl e"
  shows "fst (syncToStdout key w) = Some e \<and>
    (\<forall>ks. pending (queue w) = key # ks \<longrightarrow>
       (\<exists>w'. processNextItem w = Some (True, w') \<and>
          (if NumRequeues (queue w) key < 5
           then NumRequeues (queue w') key = Suc (NumRequeues (queue w) key) \<and>
                pending (queue w') = ks @ [key] \<and> HandleError w' = HandleError w
           else NumRequeues (queue w') key = 0 \<and>
                pending (queue w') = ks \<and> HandleError w' = HandleError w @ [e])))"
proof (intro conjI allI impI)
  show "fst (syncToStdout key w) = Some e"
    using assms by (simp add: syncToStdout_def)
next
  fix ks assume p: "pending (queue w) = key # ks"
  show "\<exists>w'. processNextItem w = Some (True, w') \<and>
          (if NumRequeues (queue w) key < 5
           then NumRequeues (queue w') key = Suc (NumRequeues (queue w) key) \<and>
                pending (queue w') = ks @ [key] \<and> HandleError w' = HandleError w
           else NumRequeues (queue w') key = 0 \<and>
                pending (queue w') = ks \<and> HandleError w' = HandleError w @ [e])"
  proof (cases "retries (queue w) key < 5")
    case True
    from processNextItem_requeue [OF p assms True] show ?thesis
      using True by (simp add: NumRequeues_def requeued_def)
  next
    case False
    from processNextItem_drop [OF p assms False] show ?thesis
      using False by (simp add: NumRequeues_def forgotten_def)
  qed
qed

theorem C7_witness:
  "indexer (example_world closed_indexer [''ns/foo''] None) ''ns/foo'' = Inl ''store closed'' \<and>
   pending (queue (example_world closed_indexer [''ns/foo''] None)) = [''ns/foo''] \<and>
   fst (syncToStdout ''ns/foo'' (example_world closed_indexer [''ns/foo''] None))
     = Some ''store closed'' \<and>
   (\<exists>w'. processNextItem (example_world closed_indexer [''ns/foo''] None) = Some (True, w') \<and>
       NumRequeues (queue w') ''ns/foo'' = 1 \<and>
       pending (queue w') = [''ns/foo''] \<and> HandleError w' = []) \<and>
   indexer exhausted_world ''ns/foo'' = Inl ''store closed'' \<and>
   pending (queue exhausted_world) = [''ns/foo''] \<and>
   (\<exists>w'. processNextItem exhausted_world = Some (True, w') \<and>
       NumRequeues (queue w') ''ns/foo'' = 0 \<and>
       pending (queue w') = [] \<and> HandleError w' = [''store closed''])"
proof -
  let ?w = "example_world closed_indexer [''ns/foo''] None"
  have h: "indexer ?w ''ns/foo'' = Inl ''store closed''"
    by (simp add: example_world_def closed_indexer_def)
  have p: "pending (queue ?w) = ''ns/foo'' # []"
    by (simp add: example_world_def example_queue_def)
  have n: "NumRequeues (queue ?w) ''ns/foo'' = 0" "HandleError ?w = []"
    by (simp_all add: example_world_def example_queue_def NumRequeues_def)
  from C7_cache_read_failure [OF h] h p n
  have 1: "fst (syncToStdout ''ns/foo'' ?w) = Some ''store closed''"
    and 2: "\<exists>w'. processNextItem ?w = Some (True, w') \<and>
       NumRequeues (queue w') ''ns/foo'' = 1 \<and>
       pending (queue w') = [''ns/foo''] \<and> HandleError w' = []"
    by auto
  have h5: "indexer exhausted_world ''ns/foo'' = Inl ''store closed''"
    by (simp add: exhausted_world_def example_world_def closed_indexer_def)
  have p5: "pending (queue exhausted_world) = ''ns/foo'' # []"
    by (simp add: exhausted_world_def example_queue_def)
  have n5: "NumRequeues (queue exhausted_world) ''ns/foo'' = 5" "HandleError exhausted_world = []"
    by (simp_all add: exhausted_world_def example_world_def NumRequeues_def)
  from C7_cache_read_failure [OF h5] p5 n5
  have 3: "\<exists>w'. processNextItem exhausted_world = Some (True, w') \<and>
       NumRequeues (queue w') ''ns/foo'' = 0 \<and>
       pending (queue w') = [] \<and> HandleError w' = [''store closed'']"
    by auto
  from h p 1 2 h5 p5 3 show ?thesis by simp
qed

text \<open>
  C5. When the lookup of a key succeeds and finds no object, \<open>syncToStdout\<close> prints the
  "does not exist anymore" line, changes nothing else (the file sink included) and
  returns nil; the iteration that delivered the key forgets it and does not requeue it.
\<close>

theorem C5_absent_key:
  assumes "indexer w key = Inr None"
  shows "syncToStdout key w =
      (None, w\<lparr>stdout := stdout w @ [Printf (''Pod %s does not exist anymore'' @ nl) [key]]\<rparr>) \<and>
    (\<forall>ks. pending (queue w) = key # ks \<longrightarrow>
       (\<exists>w'. processNextItem w = Some (True, w') \<and> f w' = f w \<and>
          NumRequeues (queue w') key = 0 \<and> pending (queue w') = ks \<and>
          key \<notin> dirty (queue w') \<and> HandleError w' = HandleError w))"
proof (intro conjI allI impI)
  show "syncToStdout key w =
      (None, w\<lparr>stdout := stdout w @ [Printf (''Pod %s does not exist anymore'' @ nl) [key]]\<rparr>)"
    using assms by (simp add: syncToStdout_def)
next
  fix ks assume p: "pending (queue w) = key # ks"
  from processNextItem_absent [OF p assms]
  show "\<exists>w'. processNextItem w = Some (True, w') \<and> f w' = f w \<and>
          NumRequeues (queue w') key = 0 \<and> pending (queue w') = ks \<and>
          key \<notin> dirty (queue w') \<and> HandleError w' = HandleError w"
    by (simp add: NumRequeues_def forgotten_def)
qed

theorem C5_witness:
  "indexer (example_world empty_indexer [''ns/foo''] None) ''ns/foo'' = Inr None \<and>
   pending (queue (example_world empty_indexer [''ns/foo''] None)) = [''ns/foo''] \<and>
   fst (syncToStdout ''ns/foo'' (example_world empty_indexer [''ns/foo''] None)) = None \<and>
   (\<exists>w'. processNextItem (example_world empty_indexer [''ns/foo''] None) = Some (True, w') \<and>
      written (f w') = [] \<and> NumRequeues (queue w') ''ns/foo'' = 0 \<and>
      pending (queue w') = [] \<and> HandleError w' = [])"
proof -
  let ?w = "example_world empty_indexer [''ns/foo''] None"
  have h: "indexer ?w ''ns/foo'' = Inr None"
    by (simp add: example_world_def empty_indexer_def closed_indexer_def example_indexer_def)
  have p: "pending (queue ?w) = ''ns/foo'' # []"
    by (simp add: example_world_def example_queue_def)
  have n: "written (f ?w) = []" "HandleError ?w = []"
    by (simp_all add: example_world_def empty_indexer_def closed_indexer_def example_indexer_def)
  from C5_absent_key [OF h] h p n show ?thesis
    by auto
qed

text \<open>
  C3. When the lookup of a key returns an existing object, \<open>syncToStdout\<close> returns nil
  whether or not the write to the file sink succeeds. When the write fails, the error is
  only printed; the iteration that delivered the key forgets it, does not requeue it,
  reports nothing and leaves the file as it was.
\<close>

theorem C3_write_error_not_retried:
  assumes "indexer w key = Inr (Some evt)"
  shows "fst (syncToStdout key w) = None \<and>
    (\<forall>e. unavailable (f w) = Some e \<longrightarrow>
       syncToStdout key w =
         (None, w\<lparr>stdout := stdout w @
             [Printf (Sprintf_msg evt) [], Printf ''write file error %s'' [e]]\<rparr>) \<and>
       (\<forall>ks. pending (queue w) = key # ks \<longrightarrow>
          (\<exists>w'. processNextItem w = Some (True, w') \<and> f w' = f w \<and>
             NumRequeues (queue w') key = 0 \<and> pending (queue w') = ks \<and>
             key \<notin> dirty (queue w') \<and> klog w' = klog w \<and>
             HandleError w' = HandleError w)))"
proof (intro conjI allI impI)
  show "fst (syncToStdout key w) = None"
    using assms
    by (simp add: syncToStdout_def WriteString_def Let_def split: option.split)
next
  fix e assume u: "unavailable (f w) = Some e"
  then show "syncToStdout key w =
         (None, w\<lparr>stdout := stdout w @
             [Printf (Sprintf_msg evt) [], Printf ''write file error %s'' [e]]\<rparr>)"
    using assms by (simp add: syncToStdout_def WriteString_def Let_def)
  fix ks assume p: "pending (queue w) = key # ks"
  from processNextItem_write_error [OF p assms u]
  show "\<exists>w'. processNextItem w = Some (True, w') \<and> f w' = f w \<and>
             NumRequeues (queue w') key = 0 \<and> pending (queue w') = ks \<and>
             key \<notin> dirty (queue w') \<and> klog w' = klog w \<and>
             HandleError w' = HandleError w"
    by (simp add: NumRequeues_def forgotten_def)
qed

theorem C3_witness:
  "indexer (example_world example_indexer [''ns/foo''] (Some ''disk full''))
      ''ns/foo'' = Inr (Some example_evt) \<and>
   unavailable (f (example_world example_indexer [''ns/foo''] (Some ''disk full'')))
      = Some ''disk full'' \<and>
   pending (queue (example_world example_indexer [''ns/foo''] (Some ''disk full'')))
      = [''ns/foo''] \<and>
   fst (syncToStdout ''ns/foo''
      (example_world example_indexer [''ns/foo''] (Some ''disk full''))) = None \<and>
   (\<exists>w'. processNextItem
        (example_world example_indexer [''ns/foo''] (Some ''disk full''))
          = Some (True, w') \<and>
      written (f w') = [] \<and> NumRequeues (queue w') ''ns/foo'' = 0 \<and>
      pending (queue w') = [] \<and> klog w' = [] \<and> HandleError w' = [])"
proof -
  let ?w = "example_world example_indexer [''ns/foo''] (Some ''disk full'')"
  have h: "indexer ?w ''ns/foo'' = Inr (Some example_evt)"
    by (simp add: example_world_def empty_indexer_def closed_indexer_def example_indexer_def)
  have u: "unavailable (f ?w) = Some ''disk full''"
    by (simp add: example_world_def empty_indexer_def closed_indexer_def example_indexer_def)
  have p: "pending (queue ?w) = ''ns/foo'' # []"
    by (simp add: example_world_def example_queue_def)
  have n: "written (f ?w) = []" "klog ?w = []" "HandleError ?w = []"
    by (simp_all add: example_world_def empty_indexer_def closed_indexer_def example_indexer_def)
  from C3_write_error_not_retried [OF h] h u p n show ?thesis
    by auto
qed

text \<open>
  C6, as amended. On a sync of an existing cached object whose write to the sink
  succeeds, \<open>syncToStdout\<close> returns nil and appends to the file exactly the text
  \<^verbatim>\<open><name>: <namespace>/<kind>/<name>/<message> \n\<close>, with a space before the
  newline, the fields taken from the cached snapshot.
\<close>

theorem C6_line_appended:
  assumes "indexer w key = Inr (Some evt)" and "unavailable (f w) = None"
  shows "fst (syncToStdout key w) = None \<and>
    written (f (snd (syncToStdout key w))) =
      written (f w) @ Name evt @ '': '' @ Namespace evt @ ''/'' @ Kind evt @ ''/'' @ Name evt
        @ ''/'' @ Message evt @ '' '' @ nl"
  using assms
  by (simp add: syncToStdout_def WriteString_def Sprintf_msg_def Let_def)

theorem C6_witness:
  "indexer (example_world example_indexer [''ns/foo''] None) ''ns/foo''
     = Inr (Some example_evt) \<and>
   unavailable (f (example_world example_indexer [''ns/foo''] None)) = None \<and>
   written (f (snd (syncToStdout ''ns/foo''
      (example_world example_indexer [''ns/foo''] None)))) =
     ''foo: ns/Event/foo/Pulled image '' @ nl"
proof -
  let ?w = "example_world example_indexer [''ns/foo''] None"
  have h: "indexer ?w ''ns/foo'' = Inr (Some example_evt)"
    by (simp add: example_world_def empty_indexer_def closed_indexer_def example_indexer_def)
  have u: "unavailable (f ?w) = None"
    by (simp add: example_world_def empty_indexer_def closed_indexer_def example_indexer_def)
  have n: "written (f ?w) = []"
    by (simp add: example_world_def empty_indexer_def closed_indexer_def example_indexer_def)
  from C6_line_appended [OF h u] h u n show ?thesis
    by (simp add: example_evt_def)
qed

text \<open>
  C6 as stated fails: for the object \<^verbatim>\<open>ns/foo\<close> the sync succeeds and the text appended
  is not the line of the specification (the program writes a space before the newline);
  and when the sink is unavailable the sync succeeds as well and appends nothing.
\<close>

theorem C6_counterexample:
  "fst (syncToStdout ''ns/foo'' (example_world example_indexer [''ns/foo''] None)) = None \<and>
   written (f (snd (syncToStdout ''ns/foo'' (example_world example_indexer [''ns/foo''] None))))
     \<noteq> written (f (example_world example_indexer [''ns/foo''] None)) @ spec_line example_evt \<and>
   fst (syncToStdout ''ns/foo''
      (example_world example_indexer [''ns/foo''] (Some ''disk full''))) = None \<and>
   written (f (snd (syncToStdout ''ns/foo''
      (example_world example_indexer [''ns/foo''] (Some ''disk full''))))) = []"
  by (simp add: syncToStdout_def WriteString_def Sprintf_msg_def Let_def example_world_def
      example_indexer_def example_evt_def spec_line_def nl_def)

text \<open>
  C4. When Sync returned nil, \<open>handleErr\<close> only calls \<open>Forget\<close>: the retry counter of the
  key is zero afterwards and the key is not requeued. So for a key that fails twice,
  succeeds, and fails twice again, the counter is 2 before the success, 0 after it and 2 at
  the end, both later failures requeue the key, and nothing is reported.
\<close>

theorem C4_forget_resets:
  "handleErr None key w = w\<lparr>queue := Forget (queue w) key\<rparr> \<and>
   NumRequeues (queue (handleErr None key w)) key = 0 \<and>
   pending (queue (handleErr None key w)) = pending (queue w) \<and>
   dirty (queue (handleErr None key w)) = dirty (queue w) \<and>
   (NumRequeues (queue w) key = 0 \<longrightarrow>
      (let w1 = handleErr (Some a) key w;
           w2 = handleErr (Some b) key w1;
           w3 = handleErr None key w2;
           w4 = handleErr (Some c) key w3;
           w5 = handleErr (Some d) key w4
       in NumRequeues (queue w2) key = 2 \<and> NumRequeues (queue w3) key = 0 \<and>
          queue w4 = AddRateLimited (queue w3) key \<and>
          queue w5 = AddRateLimited (queue w4) key \<and>
          NumRequeues (queue w5) key = 2 \<and> HandleError w5 = HandleError w))"
proof -
  have nil: "NumRequeues (queue (handleErr None key v)) key = 0"
    "HandleError (handleErr None key v) = HandleError v" for v
    by (simp_all add: handleErr_nil NumRequeues_Forget)
  have scenario: "NumRequeues (queue w2) key = 2 \<and> NumRequeues (queue w3) key = 0 \<and>
          queue w4 = AddRateLimited (queue w3) key \<and>
          queue w5 = AddRateLimited (queue w4) key \<and>
          NumRequeues (queue w5) key = 2 \<and> HandleError w5 = HandleError w"
    if z: "NumRequeues (queue w) key = 0"
      and w1: "w1 = handleErr (Some a) key w" and w2: "w2 = handleErr (Some b) key w1"
      and w3: "w3 = handleErr None key w2"
      and w4: "w4 = handleErr (Some c) key w3" and w5: "w5 = handleErr (Some d) key w4"
    for w1 w2 w3 w4 w5
  proof -
    have s1: "NumRequeues (queue w1) key = 1" "HandleError w1 = HandleError w"
      using z by (simp_all add: w1 handleErr_requeue_facts NumRequeues_AddRateLimited)
    have s2: "NumRequeues (queue w2) key = 2" "HandleError w2 = HandleError w"
      using s1 by (simp_all add: w2 handleErr_requeue_facts NumRequeues_AddRateLimited)
    have s3: "NumRequeues (queue w3) key = 0" "HandleError w3 = HandleError w"
      using s2 by (simp_all add: w3 nil)
    have s4: "queue w4 = AddRateLimited (queue w3) key" "NumRequeues (queue w4) key = 1"
      "HandleError w4 = HandleError w"
      using s3 by (simp_all add: w4 handleErr_requeue_facts NumRequeues_AddRateLimited)
    have s5: "queue w5 = AddRateLimited (queue w4) key" "NumRequeues (queue w5) key = 2"
      "HandleError w5 = HandleError w"
      using s4 by (simp_all add: w5 handleErr_requeue_facts NumRequeues_AddRateLimited)
    from s2 s3 s4 s5 show ?thesis by blast
  qed
  have base: "handleErr None key w = w\<lparr>queue := Forget (queue w) key\<rparr>"
    "pending (queue (handleErr None key w)) = pending (queue w)"
    "dirty (queue (handleErr None key w)) = dirty (queue w)"
    by (simp_all add: handleErr_nil Forget_def)
  from base nil scenario show ?thesis
    unfolding Let_def by blast
qed

theorem C4_witness:
  "NumRequeues (queue (example_world empty_indexer [''ns/foo''] None)) ''ns/foo'' = 0 \<and>
   (let w1 = handleErr (Some ''e1'') ''ns/foo'' (example_world empty_indexer [''ns/foo''] None);
        w2 = handleErr (Some ''e2'') ''ns/foo'' w1;
        w3 = handleErr None ''ns/foo'' w2;
        w4 = handleErr (Some ''e3'') ''ns/foo'' w3;
        w5 = handleErr (Some ''e4'') ''ns/foo'' w4
    in NumRequeues (queue w2) ''ns/foo'' = 2 \<and> NumRequeues (queue w3) ''ns/foo'' = 0 \<and>
       queue w4 = AddRateLimited (queue w3) ''ns/foo'' \<and>
       queue w5 = AddRateLimited (queue w4) ''ns/foo'' \<and>
       NumRequeues (queue w5) ''ns/foo'' = 2 \<and>
       HandleError w5 = HandleError (example_world empty_indexer [''ns/foo''] None))"
proof -
  let ?w = "example_world empty_indexer [''ns/foo''] None"
  have h: "NumRequeues (queue ?w) ''ns/foo'' = 0"
    by (simp add: example_world_def example_queue_def NumRequeues_def)
  from C4_forget_resets [of "''ns/foo''" ?w "''e1''" "''e2''" "''e3''" "''e4''"] h
  show ?thesis
    by blast
qed

text \<open>
  C2, as amended. For every pair of old and new \<^verbatim>\<open>*v1.Event\<close> delivered to the update
  handler, with a key function that returns no error for the old object, the handler
  calls \<open>Add\<close> with the key of the old object if and only if both \<open>Source\<close> and
  \<open>Reason\<close> differ between the two; otherwise nothing at all changes, the queue
  included.
\<close>

theorem C2_update_filter:
  assumes "snd (keyFunc (EventPtr oldEvt)) = None"
  shows "\<exists>w'. UpdateFunc keyFunc (EventPtr oldEvt) (EventPtr newEvt) w = Inr w' \<and>
     (if Source newEvt \<noteq> Source oldEvt \<and> Reason oldEvt \<noteq> Reason newEvt
      then queue w' = Add (queue w) (fst (keyFunc (EventPtr oldEvt)))
      else w' = w)"
proof (cases "Source newEvt \<noteq> Source oldEvt \<and> Reason oldEvt \<noteq> Reason newEvt")
  case True
  from assms have "keyFunc (EventPtr oldEvt) = (fst (keyFunc (EventPtr oldEvt)), None)"
    by (simp add: prod_eq_iff)
  from UpdateFunc_enqueue [where keyFunc = keyFunc and w = w and newEvt = newEvt, OF _ _ this]
    True
  show ?thesis
    by simp
next
  case False
  from UpdateFunc_filtered [where keyFunc = keyFunc and w = w, OF False] False
  show ?thesis
    by auto
qed

theorem C2_witness:
  "snd (MetaNamespaceKeyFunc (EventPtr example_evt)) = None \<and>
   (\<exists>w'. UpdateFunc MetaNamespaceKeyFunc (EventPtr example_evt) (EventPtr example_evt2)
        (example_world empty_indexer [] None) = Inr w' \<and>
      pending (queue w') = [''ns/foo'']) \<and>
   UpdateFunc MetaNamespaceKeyFunc (EventPtr example_evt)
        (EventPtr (example_evt\<lparr>Message := ''Pulled image again''\<rparr>))
        (example_world empty_indexer [] None) = Inr (example_world empty_indexer [] None)"
proof -
  let ?w = "example_world empty_indexer [] None"
  have h: "snd (MetaNamespaceKeyFunc (EventPtr example_evt)) = None"
    by (simp add: example_evt_def)
  have k: "fst (MetaNamespaceKeyFunc (EventPtr example_evt)) = ''ns/foo''"
    by (simp add: example_evt_def)
  have a: "Add (queue ?w) ''ns/foo'' = example_queue [''ns/foo'']"
    by (simp add: example_world_def example_queue_def Add_def)
  have d: "Source example_evt2 \<noteq> Source example_evt \<and> Reason example_evt \<noteq> Reason example_evt2"
    by (simp add: example_evt_def example_evt2_def)
  have s: "\<not> (Source (example_evt\<lparr>Message := ''Pulled image again''\<rparr>) \<noteq> Source example_evt \<and>
     Reason example_evt \<noteq> Reason (example_evt\<lparr>Message := ''Pulled image again''\<rparr>))"
    by simp
  from C2_update_filter [where keyFunc = MetaNamespaceKeyFunc and w = ?w
      and newEvt = example_evt2, OF h] d k a
  have 1: "\<exists>w'. UpdateFunc MetaNamespaceKeyFunc (EventPtr example_evt) (EventPtr example_evt2) ?w
      = Inr w' \<and> pending (queue w') = [''ns/foo'']"
    by (auto simp: example_queue_def)
  from C2_update_filter [where keyFunc = MetaNamespaceKeyFunc and w = ?w
      and newEvt = "example_evt\<lparr>Message := ''Pulled image again''\<rparr>", OF h] s
  have 2: "UpdateFunc MetaNamespaceKeyFunc (EventPtr example_evt)
        (EventPtr (example_evt\<lparr>Message := ''Pulled image again''\<rparr>)) ?w = Inr ?w"
    by auto
  from h 1 2 show ?thesis by blast
qed

text \<open>
  C2 as stated fails: an update that changes the tracked field \<open>Reason\<close> alone is not
  enqueued.
\<close>

theorem C2_counterexample:
  "tracked_field_changed example_evt (example_evt\<lparr>Reason := ''Started''\<rparr>) \<and>
   UpdateFunc MetaNamespaceKeyFunc (EventPtr example_evt)
       (EventPtr (example_evt\<lparr>Reason := ''Started''\<rparr>)) (example_world empty_indexer [] None)
     = Inr (example_world empty_indexer [] None) \<and>
   pending (queue (example_world empty_indexer [] None)) = []"
  by (simp add: tracked_field_changed_def UpdateFunc_def example_evt_def example_world_def
      example_queue_def)

text \<open>
  C8. A delete notification carrying a tombstone: the deletion-tolerant key extractor
  alone returns the key of the tombstone, but \<open>DeleteFunc\<close> asserts \<^verbatim>\<open>obj.(*v1.Event)\<close>
  first and panics, so no key is enqueued. A delete notification carrying the event
  itself enqueues its key.
\<close>

theorem C8_tombstone_delete_panics:
  "DeletionHandlingMetaNamespaceKeyFunc (DeletedFinalStateUnknown ''ns/foo'' ob)
     = (''ns/foo'', None) \<and>
   DeleteFunc DeletionHandlingMetaNamespaceKeyFunc (DeletedFinalStateUnknown ''ns/foo'' ob) w
     = Inl TypeAssertionPanic \<and>
   DeleteFunc DeletionHandlingMetaNamespaceKeyFunc (EventPtr example_evt) w =
     Inr (w\<lparr>newEvent := \<lparr>Type = DeleteEvent, Obj = Some example_evt, Key = ''ns/foo''\<rparr>,
            err := None, queue := Add (queue w) ''ns/foo''\<rparr>)"
  by (simp add: DeleteFunc_tombstone DeleteFunc_enqueue example_evt_def)

text \<open>
  C9. For every update notification that passes the filter, with a key function that
  returns no error for the old object, the key stored and enqueued is the one computed
  from the old object, whatever the key of the new object is, while the object stored in
  \<open>newEvent\<close> is the new one.
\<close>

theorem C9_update_key_from_old:
  assumes "Source newEvt \<noteq> Source oldEvt" and "Reason oldEvt \<noteq> Reason newEvt"
    and "snd (keyFunc (EventPtr oldEvt)) = None"
  shows "\<exists>w'. UpdateFunc keyFunc (EventPtr oldEvt) (EventPtr newEvt) w = Inr w' \<and>
     queue w' = Add (queue w) (fst (keyFunc (EventPtr oldEvt))) \<and>
     Key (newEvent w') = fst (keyFunc (EventPtr oldEvt)) \<and>
     Obj (newEvent w') = Some newEvt"
proof -
  from assms(3) have "keyFunc (EventPtr oldEvt) = (fst (keyFunc (EventPtr oldEvt)), None)"
    by (simp add: prod_eq_iff)
  from UpdateFunc_enqueue [where keyFunc = keyFunc and w = w, OF assms(1,2) this]
  show ?thesis
    by simp
qed

theorem C9_witness:
  "Source example_evt2 \<noteq> Source example_evt \<and> Reason example_evt \<noteq> Reason example_evt2 \<and>
   snd (MetaNamespaceKeyFunc (EventPtr example_evt)) = None \<and>
   fst (MetaNamespaceKeyFunc (EventPtr example_evt2)) = ''ns/bar'' \<and>
   (\<exists>w'. UpdateFunc MetaNamespaceKeyFunc (EventPtr example_evt) (EventPtr example_evt2)
        (example_world empty_indexer [] None) = Inr w' \<and>
      pending (queue w') = [''ns/foo''] \<and> Key (newEvent w') = ''ns/foo'' \<and>
      Obj (newEvent w') = Some example_evt2)"
proof -
  let ?w = "example_world empty_indexer [] None"
  have d1: "Source example_evt2 \<noteq> Source example_evt"
    and d2: "Reason example_evt \<noteq> Reason example_evt2"
    by (simp_all add: example_evt_def example_evt2_def)
  have h: "snd (MetaNamespaceKeyFunc (EventPtr example_evt)) = None"
    by (simp add: example_evt_def)
  have k: "fst (MetaNamespaceKeyFunc (EventPtr example_evt)) = ''ns/foo''"
    "fst (MetaNamespaceKeyFunc (EventPtr example_evt2)) = ''ns/bar''"
    by (simp_all add: example_evt_def example_evt2_def)
  have a: "pending (Add (queue ?w) ''ns/foo'') = [''ns/foo'']"
    by (simp add: example_world_def example_queue_def Add_def)
  from C9_update_key_from_old [where keyFunc = MetaNamespaceKeyFunc and w = ?w, OF d1 d2 h]
    d1 d2 h k a
  show ?thesis
    by auto
qed



end
